theory Spec2Isabelle
  imports Complex_Main "HOL-Library.Char_ord" "HOL-Library.List_Lexorder"
begin

section \<open>GPS interpolation and photo/track matching (geo\_core.py)\<close>

text \<open>
  Conventions of the embedding.
  \<^item> An aware \<open>datetime\<close> normalised to UTC is the integer number of microseconds since the
    epoch (\<open>datetime\<close> has microsecond resolution, and Python integers are unbounded).
  \<^item> Python floats (latitude, longitude, elevation, the result of \<open>total_seconds()\<close>) are
    idealised as real numbers: rounding of IEEE doubles is not modelled.
  \<^item> The range limits of \<open>datetime\<close> (years 1 to 9999) are not modelled; the limit of
    \<open>timedelta\<close> is, where the source builds one from the text of a photo's metadata.
  \<^item> A Python exception that can leave a function is a value \<open>Inl e\<close> of a sum type;
    an exception caught by the source is the branch its handler takes.
  \<^item> Library functions whose behaviour the program only consumes (\<open>gpxpy.parse\<close>,
    \<open>datetime.strptime\<close>, \<open>str.strip\<close>, \<open>int\<close>, the host's local time zone) are parameters.
\<close>

subsection \<open>Data model\<close>

datatype py_error = ZeroDivisionError | OverflowError

text \<open>The dictionary \<open>{"lat": .., "lon": .., "ele": ..}\<close> returned by the interpolation.\<close>

record position =
  lat :: real
  lon :: real
  ele :: real

text \<open>A track point \<open>{"time": .., "lat": .., "lon": .., "ele": ..}\<close>.\<close>

record trackpoint = position +
  time :: int

text \<open>The expression \<open>{"lat": p["lat"], "lon": p["lon"], "ele": p["ele"]}\<close>.\<close>

definition pos_of :: "trackpoint \<Rightarrow> position" where
  "pos_of p = \<lparr>lat = lat p, lon = lon p, ele = ele p\<rparr>"

text \<open>\<open>timedelta.total_seconds()\<close> of a difference of two instants given in microseconds.\<close>

definition total_seconds :: "int \<Rightarrow> real" where
  "total_seconds us = real_of_int us / 1000000"

subsection \<open>\<open>bisect.bisect_left\<close>\<close>

text \<open>
  The standard library's loop:
  \<^verbatim>\<open>while lo < hi: mid = (lo + hi) // 2; if a[mid] < x: lo = mid + 1 else: hi = mid\<close>
  started at \<open>lo = 0\<close>, \<open>hi = len(a)\<close>.
\<close>

function bisect_left_loop :: "int list \<Rightarrow> int \<Rightarrow> nat \<Rightarrow> nat \<Rightarrow> nat" where
  "bisect_left_loop a x lo hi =
     (if lo < hi then
        (let mid = (lo + hi) div 2 in
         if a ! mid < x then bisect_left_loop a x (mid + 1) hi
         else bisect_left_loop a x lo mid)
      else lo)"
  by pat_completeness auto
termination
  by (relation "measure (\<lambda>(a, x, lo, hi). hi - lo)") auto

declare bisect_left_loop.simps [simp del]

definition bisect_left :: "int list \<Rightarrow> int \<Rightarrow> nat" where
  "bisect_left a x = bisect_left_loop a x 0 (length a)"

subsection \<open>\<open>interpolate_gps\<close>\<close>

text \<open>
  The float division \<open>elapsed / total_gap\<close> raises \<open>ZeroDivisionError\<close> on a zero divisor.
\<close>

definition py_truediv :: "real \<Rightarrow> real \<Rightarrow> py_error + real" where
  "py_truediv a b = (if b = 0 then Inl ZeroDivisionError else Inr (a / b))"

text \<open>
  Lines 273 to 289, the interior case: the query lies between \<open>before\<close> and \<open>after\<close>.
\<close>

definition interpolate_between ::
  "trackpoint \<Rightarrow> trackpoint \<Rightarrow> int \<Rightarrow> real \<Rightarrow> py_error + position option" where
  "interpolate_between before after photo_time max_gap_seconds =
     (let total_gap = total_seconds (time after - time before) in
      if total_gap > max_gap_seconds then Inr None
      else if total_gap = 0 then Inr (Some (pos_of before))
      else
        let elapsed = total_seconds (photo_time - time before) in
        case py_truediv elapsed total_gap of
          Inl e \<Rightarrow> Inl e
        | Inr ratio \<Rightarrow>
            Inr (Some \<lparr>lat = lat before + (lat after - lat before) * ratio,
                       lon = lon before + (lon after - lon before) * ratio,
                       ele = ele before + (ele after - ele before) * ratio\<rparr>))"

definition interpolate_gps ::
  "trackpoint list \<Rightarrow> int \<Rightarrow> real \<Rightarrow> py_error + position option" where
  "interpolate_gps trackpoints photo_time max_gap_seconds =
     (if trackpoints = [] then Inr None
      else
        let times = map time trackpoints;
            idx = bisect_left times photo_time
        in
        if idx < length trackpoints \<and> time (trackpoints ! idx) = photo_time then
          Inr (Some (pos_of (trackpoints ! idx)))
        else if idx = 0 then
          (let gap = total_seconds (time (trackpoints ! 0) - photo_time) in
           if gap \<le> max_gap_seconds then Inr (Some (pos_of (trackpoints ! 0)))
           else Inr None)
        else if idx \<ge> length trackpoints then
          (let gap = total_seconds (photo_time - time (last trackpoints)) in
           if gap \<le> max_gap_seconds then Inr (Some (pos_of (last trackpoints)))
           else Inr None)
        else
          interpolate_between (trackpoints ! (idx - 1)) (trackpoints ! idx)
            photo_time max_gap_seconds)"

text \<open>
  Two timelines used as examples: the scenario of the specification (two points 1000
  seconds apart), and a timeline in which three points share one time.
\<close>

definition scenario_timeline :: "trackpoint list" where
  "scenario_timeline =
     [\<lparr>lat = 10, lon = 20, ele = 0, time = 0\<rparr>,
      \<lparr>lat = 10.01, lon = 20.02, ele = 5, time = 1000000000\<rparr>]"

definition duplicate_timeline :: "trackpoint list" where
  "duplicate_timeline =
     [\<lparr>lat = 1, lon = 1, ele = 1, time = 0\<rparr>,
      \<lparr>lat = 2, lon = 2, ele = 2, time = 5\<rparr>,
      \<lparr>lat = 3, lon = 3, ele = 3, time = 5\<rparr>,
      \<lparr>lat = 4, lon = 4, ele = 4, time = 5\<rparr>,
      \<lparr>lat = 5, lon = 5, ele = 5, time = 9\<rparr>]"

subsection \<open>The matching loop of \<open>async_scan_photos\<close>\<close>

text \<open>
  The dictionary built by \<open>async_get_photo_metadata\<close> (keys \<open>filename\<close>, \<open>filepath\<close>,
  \<open>time\<close>, \<open>has_gps\<close>, \<open>lat\<close>, \<open>lon\<close>). The key \<open>time\<close> holds the ISO text of a UTC
  instant, read back with \<open>datetime.fromisoformat\<close>; the model keeps the instant itself.
  The keys \<open>time\<close>, \<open>lat\<close> and \<open>lon\<close> are the fields \<open>photo_time\<close>, \<open>photo_lat\<close> and
  \<open>photo_lon\<close>, the shorter names being those of the track point.
\<close>

record photo =
  filename :: string
  filepath :: string
  photo_time :: "int option"
  has_gps :: bool
  photo_lat :: "real option"
  photo_lon :: "real option"

text \<open>
  The same dictionary after the loop: the key \<open>status\<close> is always set, the keys
  \<open>matched_lat\<close>, \<open>matched_lon\<close>, \<open>matched_ele\<close> only in one branch (\<open>None\<close>: key not set).
\<close>

record scanned_photo = photo +
  status :: string
  matched_lat :: "real option"
  matched_lon :: "real option"
  matched_ele :: "real option"

definition set_status :: "photo \<Rightarrow> string \<Rightarrow> scanned_photo" where
  "set_status p s =
     \<lparr>filename = filename p, filepath = filepath p, photo_time = photo_time p,
      has_gps = has_gps p, photo_lat = photo_lat p, photo_lon = photo_lon p,
      status = s, matched_lat = None, matched_lon = None, matched_ele = None\<rparr>"

definition set_matched :: "photo \<Rightarrow> position \<Rightarrow> scanned_photo" where
  "set_matched p gps =
     \<lparr>filename = filename p, filepath = filepath p, photo_time = photo_time p,
      has_gps = has_gps p, photo_lat = photo_lat p, photo_lon = photo_lon p,
      status = ''matched'', matched_lat = Some (lat gps), matched_lon = Some (lon gps),
      matched_ele = Some (ele gps)\<rparr>"

text \<open>
  One iteration of \<open>for photo in photos\<close>. Next to the updated photo the model returns the
  query instants on which \<open>interpolate_gps\<close> was called in this iteration (a log of the
  calls, which the source does not keep).
\<close>

definition match_photo ::
  "trackpoint list \<Rightarrow> real \<Rightarrow> photo \<Rightarrow> py_error + (scanned_photo \<times> int list)" where
  "match_photo trackpoints max_gap p =
     (if has_gps p then Inr (set_status p ''has_gps'', [])
      else
        case photo_time p of
          None \<Rightarrow> Inr (set_status p ''no_time'', [])
        | Some t \<Rightarrow>
            (case interpolate_gps trackpoints t max_gap of
               Inl e \<Rightarrow> Inl e
             | Inr (Some gps) \<Rightarrow> Inr (set_matched p gps, [t])
             | Inr None \<Rightarrow> Inr (set_status p ''no_match'', [t])))"

fun match_photos ::
  "trackpoint list \<Rightarrow> real \<Rightarrow> photo list \<Rightarrow> py_error + (scanned_photo list \<times> int list)" where
  "match_photos trackpoints max_gap [] = Inr ([], [])"
| "match_photos trackpoints max_gap (p # ps) =
     (case match_photo trackpoints max_gap p of
        Inl e \<Rightarrow> Inl e
      | Inr (r, calls) \<Rightarrow>
          (case match_photos trackpoints max_gap ps of
             Inl e \<Rightarrow> Inl e
           | Inr (rs, calls') \<Rightarrow> Inr (r # rs, calls @ calls')))"

text \<open>A batch with one photo for each outcome, matched against the scenario timeline.\<close>

definition example_photos :: "photo list" where
  "example_photos =
     [\<lparr>filename = ''a.jpg'', filepath = ''/p/a.jpg'', photo_time = Some 500000000,
       has_gps = True, photo_lat = Some 1, photo_lon = Some 2\<rparr>,
      \<lparr>filename = ''b.jpg'', filepath = ''/p/b.jpg'', photo_time = None,
       has_gps = False, photo_lat = None, photo_lon = None\<rparr>,
      \<lparr>filename = ''c.jpg'', filepath = ''/p/c.jpg'', photo_time = Some 500000000,
       has_gps = False, photo_lat = None, photo_lon = None\<rparr>,
      \<lparr>filename = ''d.jpg'', filepath = ''/p/d.jpg'', photo_time = Some 5000000000,
       has_gps = False, photo_lat = None, photo_lon = None\<rparr>]"

subsection \<open>GPX files\<close>

text \<open>
  A \<open>datetime\<close>: the wall-clock reading in microseconds and, when it is aware, the UTC
  offset of its \<open>tzinfo\<close> in microseconds.
\<close>

record datetime =
  wall :: int
  tzinfo :: "int option"

text \<open>What \<open>gpxpy.parse\<close> yields: tracks of segments of points, and waypoints.\<close>

record gpx_point =
  latitude :: real
  longitude :: real
  elevation :: "real option"
  point_time :: "datetime option"

record gpx_track =
  name :: "string option"
  segments :: "gpx_point list list"

record gpx =
  tracks :: "gpx_track list"
  waypoints :: "gpx_point list"

text \<open>
  \<open>pt_time.replace(tzinfo=timezone.utc)\<close> for a naive time,
  \<open>pt_time.astimezone(timezone.utc)\<close> for an aware one.
\<close>

definition to_utc :: "datetime \<Rightarrow> int" where
  "to_utc t = (case tzinfo t of None \<Rightarrow> wall t | Some off \<Rightarrow> wall t - off)"

text \<open>The body of both point loops: a point without time is skipped, another is appended.\<close>

definition append_point :: "trackpoint list \<Rightarrow> gpx_point \<Rightarrow> trackpoint list" where
  "append_point trackpoints point =
     (case point_time point of
        None \<Rightarrow> trackpoints
      | Some pt_time \<Rightarrow>
          trackpoints @
            [\<lparr>lat = latitude point, lon = longitude point,
              ele = (case elevation point of Some e \<Rightarrow> e | None \<Rightarrow> 0),
              time = to_utc pt_time\<rparr>])"

definition append_gpx :: "trackpoint list \<Rightarrow> gpx \<Rightarrow> trackpoint list" where
  "append_gpx trackpoints g =
     (let after_tracks =
            fold (\<lambda>track acc.
                    fold (\<lambda>segment acc'. fold (\<lambda>point acc''. append_point acc'' point) segment acc')
                      (segments track) acc)
              (tracks g) trackpoints
      in fold (\<lambda>point acc. append_point acc point) (waypoints g) after_tracks)"

text \<open>
  The list \<open>trackpoints\<close> as it is just before \<open>trackpoints.sort\<close>. The first argument
  stands for \<open>open\<close> and \<open>gpxpy.parse\<close> (\<open>None\<close>: an exception, the file is skipped), the
  second for the paths that \<open>glob.glob\<close> returns, in any order.
\<close>

definition collect_trackpoints :: "(string \<Rightarrow> gpx option) \<Rightarrow> string list \<Rightarrow> trackpoint list" where
  "collect_trackpoints parse paths =
     fold (\<lambda>gpx_file acc. case parse gpx_file of None \<Rightarrow> acc | Some g \<Rightarrow> append_gpx acc g)
       (sort paths) []"

text \<open>\<open>list.sort(key=...)\<close> is a stable sort, as \<^const>\<open>sort_key\<close> is.\<close>

definition parse_gpx_files :: "(string \<Rightarrow> gpx option) \<Rightarrow> string list \<Rightarrow> trackpoint list" where
  "parse_gpx_files parse paths =
     (let gpx_files = sort paths in
      if gpx_files = [] then []
      else sort_key time (collect_trackpoints parse paths))"

subsection \<open>\<open>get_gpx_track_geojson\<close>\<close>

record geometry =
  geometry_type :: string
  coordinates :: "real list list"

record feature =
  feature_type :: string
  properties_name :: string
  geometry :: geometry

record feature_collection =
  collection_type :: string
  features :: "feature list"

text \<open>\<open>os.path.basename\<close> (POSIX): what follows the last slash.\<close>

definition basename :: "string \<Rightarrow> string" where
  "basename p = rev (takeWhile (\<lambda>c. c \<noteq> CHR ''/'') (rev p))"

text \<open>\<open>track.name or os.path.basename(gpx_file)\<close>: an empty name is false.\<close>

definition feature_name :: "string \<Rightarrow> gpx_track \<Rightarrow> string" where
  "feature_name gpx_file track =
     (case name track of
        None \<Rightarrow> basename gpx_file
      | Some n \<Rightarrow> if n = [] then basename gpx_file else n)"

definition segment_coords :: "gpx_point list \<Rightarrow> real list list" where
  "segment_coords segment = fold (\<lambda>point coords. coords @ [[longitude point, latitude point]]) segment []"

definition append_segment :: "string \<Rightarrow> gpx_track \<Rightarrow> feature list \<Rightarrow> gpx_point list \<Rightarrow> feature list" where
  "append_segment gpx_file track feats segment =
     (let coords = segment_coords segment in
      if coords \<noteq> [] then
        feats @
          [\<lparr>feature_type = ''Feature'',
            properties_name = feature_name gpx_file track,
            geometry = \<lparr>geometry_type = ''LineString'', coordinates = coords\<rparr>\<rparr>]
      else feats)"

definition append_features :: "string \<Rightarrow> feature list \<Rightarrow> gpx \<Rightarrow> feature list" where
  "append_features gpx_file feats g =
     fold (\<lambda>track acc. fold (\<lambda>segment acc'. append_segment gpx_file track acc' segment)
                         (segments track) acc)
       (tracks g) feats"

definition get_gpx_track_geojson :: "(string \<Rightarrow> gpx option) \<Rightarrow> string list \<Rightarrow> feature_collection" where
  "get_gpx_track_geojson parse paths =
     \<lparr>collection_type = ''FeatureCollection'',
      features =
        fold (\<lambda>gpx_file acc. case parse gpx_file of None \<Rightarrow> acc
                              | Some g \<Rightarrow> append_features gpx_file acc g)
          (sort paths) []\<rparr>"


text \<open>
  The track segments that the three nested loops visit, in the order of the visit, each
  with its file and its track.
\<close>

definition file_segments :: "string \<Rightarrow> gpx \<Rightarrow> (string \<times> gpx_track \<times> gpx_point list) list" where
  "file_segments gpx_file g =
     concat (map (\<lambda>track. map (\<lambda>segment. (gpx_file, track, segment)) (segments track)) (tracks g))"

definition all_segments :: "(string \<Rightarrow> gpx option) \<Rightarrow> string list \<Rightarrow> (string \<times> gpx_track \<times> gpx_point list) list" where
  "all_segments parse paths =
     concat (map (\<lambda>gpx_file. case parse gpx_file of None \<Rightarrow> [] | Some g \<Rightarrow> file_segments gpx_file g)
               (sort paths))"

text \<open>The feature that \<open>append_segment\<close> appends for a segment.\<close>

definition segment_feature :: "string \<times> gpx_track \<times> gpx_point list \<Rightarrow> feature" where
  "segment_feature = (\<lambda>(gpx_file, track, segment).
     \<lparr>feature_type = ''Feature'',
      properties_name = feature_name gpx_file track,
      geometry = \<lparr>geometry_type = ''LineString'',
                  coordinates = map (\<lambda>point. [longitude point, latitude point]) segment\<rparr>\<rparr>)"

text \<open>
  The export as the specification words it: one feature for every track segment of every
  file that parses, named by the track's name or, when there is none, by the file name.
\<close>

definition spec_feature :: "string \<times> gpx_track \<times> gpx_point list \<Rightarrow> feature" where
  "spec_feature = (\<lambda>(gpx_file, track, segment).
     \<lparr>feature_type = ''Feature'',
      properties_name = (case name track of None \<Rightarrow> basename gpx_file | Some n \<Rightarrow> n),
      geometry = \<lparr>geometry_type = ''LineString'',
                  coordinates = map (\<lambda>point. [longitude point, latitude point]) segment\<rparr>\<rparr>)"

definition spec_track_geojson :: "(string \<Rightarrow> gpx option) \<Rightarrow> string list \<Rightarrow> feature_collection" where
  "spec_track_geojson parse paths =
     \<lparr>collection_type = ''FeatureCollection'',
      features = map spec_feature (all_segments parse paths)\<rparr>"

text \<open>A file \<open>a.gpx\<close> whose only track has one segment without points.\<close>

definition empty_segment_gpx :: gpx where
  "empty_segment_gpx = \<lparr>tracks = [\<lparr>name = Some ''Morning'', segments = [[]]\<rparr>], waypoints = []\<rparr>"

definition example_parse :: "string \<Rightarrow> gpx option" where
  "example_parse gpx_file = (if gpx_file = ''a.gpx'' then Some empty_segment_gpx else None)"

text \<open>
  A file \<open>walk.gpx\<close> with a named track of two segments, the second without points, and a
  track without name; every other file fails to parse.
\<close>

definition walk_gpx :: gpx where
  "walk_gpx =
     \<lparr>tracks =
        [\<lparr>name = Some ''Morning'',
          segments =
            [[\<lparr>latitude = 10, longitude = 20, elevation = None, point_time = None\<rparr>,
              \<lparr>latitude = 11, longitude = 21, elevation = Some 5, point_time = None\<rparr>],
             []]\<rparr>,
         \<lparr>name = None,
          segments = [[\<lparr>latitude = 12, longitude = 22, elevation = None, point_time = None\<rparr>]]\<rparr>],
      waypoints = []\<rparr>"

definition walk_parse :: "string \<Rightarrow> gpx option" where
  "walk_parse gpx_file = (if gpx_file = ''/photos/gpx/walk.gpx'' then Some walk_gpx else None)"

subsection \<open>\<open>_parse_exiftool_datetime\<close>\<close>

text \<open>
  \<open>a or b\<close> on two results of \<open>dict.get\<close>: the first when it is neither \<open>None\<close> nor the
  empty string, the second otherwise.
\<close>

definition py_or :: "string option \<Rightarrow> string option \<Rightarrow> string option" where
  "py_or a b = (case a of None \<Rightarrow> b | Some s \<Rightarrow> if s = [] then b else Some s)"

text \<open>
  \<open>str.strip()\<close> is a parameter of the functions below, named \<open>strip\<close>. For the examples,
  \<open>latin1_strip\<close> is \<open>str.strip()\<close> on a text all of whose characters are below 256: of
  these, Python counts as white space the characters 9 to 13, 28 to 32, 133 and 160.
\<close>

definition is_space :: "char \<Rightarrow> bool" where
  "is_space c = ((of_char c :: nat) \<in> {9, 10, 11, 12, 13, 28, 29, 30, 31, 32, 133, 160})"

definition latin1_strip :: "string \<Rightarrow> string" where
  "latin1_strip s = rev (dropWhile is_space (rev (dropWhile is_space s)))"

text \<open>\<open>str.split(sep)\<close> for a separator of one character: at least one part.\<close>

fun split_on :: "char \<Rightarrow> string \<Rightarrow> string list" where
  "split_on sep [] = [[]]"
| "split_on sep (c # cs) =
     (if c = sep then [] # split_on sep cs
      else (case split_on sep cs of
              [] \<Rightarrow> [[c]]
            | part # parts \<Rightarrow> (c # part) # parts))"

text \<open>
  The loop over the three formats: the first one that \<open>strptime\<close> accepts wins
  (\<open>None\<close> from \<open>strptime\<close> stands for its \<open>ValueError\<close>).
\<close>

fun try_formats :: "(string \<Rightarrow> string \<Rightarrow> datetime option) \<Rightarrow> string \<Rightarrow> string list \<Rightarrow> datetime option" where
  "try_formats strptime s [] = None"
| "try_formats strptime s (fmt # fmts) =
     (case strptime s fmt of
        Some t \<Rightarrow> Some t
      | None \<Rightarrow> try_formats strptime s fmts)"

definition formats :: "string list" where
  "formats = [''%Y:%m:%d %H:%M:%S'', ''%Y-%m-%d %H:%M:%S'', ''%Y:%m:%d %H:%M:%S%z'']"

text \<open>
  The \<open>try\<close> block that reads the offset text. \<open>Inr (Some off)\<close>: the offset in
  microseconds of the \<open>timezone\<close> built; \<open>Inr None\<close>: a \<open>ValueError\<close> or \<open>IndexError\<close> was
  caught and nothing changed; \<open>Inl OverflowError\<close>: \<open>timedelta\<close> refused the magnitude
  (more than 999999999 days), which the handler does not catch. \<open>py_int\<close> stands for
  \<open>int\<close> on a string (\<open>None\<close>: \<open>ValueError\<close>). \<open>offset_timezone\<close> is
  \<open>timezone(timedelta(hours=sign * hours, minutes=sign * minutes))\<close>: \<open>timezone\<close> raises
  \<open>ValueError\<close> unless the offset is strictly between minus and plus 24 hours.
\<close>

definition offset_timezone :: "int \<Rightarrow> int \<Rightarrow> int \<Rightarrow> py_error + int option" where
  "offset_timezone sign hours minutes =
     (let us = sign * hours * 3600000000 + sign * minutes * 60000000;
          days = us div 86400000000
      in if days < - 999999999 \<or> 999999999 < days then Inl OverflowError
         else if - 86400000000 < us \<and> us < 86400000000 then Inr (Some us)
         else Inr None)"

definition parse_offset ::
  "(string \<Rightarrow> string) \<Rightarrow> (string \<Rightarrow> int option) \<Rightarrow> string \<Rightarrow> py_error + int option" where
  "parse_offset strip py_int offset_str =
     (case strip offset_str of
        [] \<Rightarrow> Inr None
      | c # rest \<Rightarrow>
          (let sign = (if c = CHR ''+'' then 1 else - 1);
               parts = split_on CHR '':'' rest
           in (case py_int (hd parts) of
                 None \<Rightarrow> Inr None
               | Some hours \<Rightarrow>
                   (case (if length parts > 1 then py_int (parts ! 1) else Some 0) of
                      None \<Rightarrow> Inr None
                    | Some minutes \<Rightarrow> offset_timezone sign hours minutes))))"

text \<open>\<open>if offset_str:\<close> guards the block: an absent or empty offset text leaves the time naive.\<close>

definition offset_tzinfo ::
  "(string \<Rightarrow> string) \<Rightarrow> (string \<Rightarrow> int option) \<Rightarrow> string option \<Rightarrow> py_error + int option" where
  "offset_tzinfo strip py_int offset_str =
     (case offset_str of
        None \<Rightarrow> Inr None
      | Some s \<Rightarrow> if s = [] then Inr None else parse_offset strip py_int s)"

text \<open>
  Lines 153 to 165: the three formats, then the first format once more on what precedes
  the first dot. \<open>None\<close>: no pattern matched.
\<close>

definition match_date_str ::
  "(string \<Rightarrow> string \<Rightarrow> datetime option) \<Rightarrow> (string \<Rightarrow> string) \<Rightarrow> string \<Rightarrow> datetime option" where
  "match_date_str strptime strip date_str =
     (case try_formats strptime (strip date_str) formats of
        Some t \<Rightarrow> Some t
      | None \<Rightarrow> strptime (hd (split_on CHR ''.'' (strip date_str))) ''%Y:%m:%d %H:%M:%S'')"

text \<open>
  Lines 167 to 184: the UTC instant of the time read. \<open>local_utcoffset\<close> stands for the
  host's local time zone, which \<open>astimezone()\<close> applies to a time still naive.
\<close>

definition photo_time_utc ::
  "(string \<Rightarrow> string) \<Rightarrow> (string \<Rightarrow> int option) \<Rightarrow> (int \<Rightarrow> int) \<Rightarrow> string option \<Rightarrow> datetime \<Rightarrow>
   py_error + int" where
  "photo_time_utc strip py_int local_utcoffset offset_str t =
     (case tzinfo t of
        Some off \<Rightarrow> Inr (wall t - off)
      | None \<Rightarrow>
          (case offset_tzinfo strip py_int offset_str of
             Inl e \<Rightarrow> Inl e
           | Inr None \<Rightarrow> Inr (wall t - local_utcoffset (wall t))
           | Inr (Some off) \<Rightarrow> Inr (wall t - off)))"

definition parse_exiftool_datetime ::
  "(string \<Rightarrow> string \<Rightarrow> datetime option) \<Rightarrow> (string \<Rightarrow> string) \<Rightarrow> (string \<Rightarrow> int option) \<Rightarrow>
   (int \<Rightarrow> int) \<Rightarrow> (string \<rightharpoonup> string) \<Rightarrow> py_error + int option" where
  "parse_exiftool_datetime strptime strip py_int local_utcoffset info =
     (case py_or (info ''DateTimeOriginal'') (info ''CreateDate'') of
        None \<Rightarrow> Inr None
      | Some date_str \<Rightarrow>
          if date_str = [] \<or> date_str = ''0000:00:00 00:00:00'' then Inr None
          else
            (case match_date_str strptime strip date_str of
               None \<Rightarrow> Inr None
             | Some t \<Rightarrow>
                 map_sum id Some
                   (photo_time_utc strip py_int local_utcoffset
                      (py_or (info ''OffsetTimeOriginal'') (info ''OffsetTime'')) t)))"

text \<open>
  A stand-in for \<open>strptime\<close> in examples: it accepts one text with the first format.
\<close>

definition example_strptime :: "string \<Rightarrow> string \<Rightarrow> datetime option" where
  "example_strptime s fmt =
     (if s = ''2024:05:01 12:00:00'' \<and> fmt = ''%Y:%m:%d %H:%M:%S''
      then Some \<lparr>wall = 1714564800000000, tzinfo = None\<rparr> else None)"

section \<open>Properties\<close>

subsection \<open>The binary search\<close>

lemma bisect_left_loop_bracket:
  "lo \<le> hi \<Longrightarrow> hi \<le> length a \<Longrightarrow>
   (lo = 0 \<or> a ! (lo - 1) < x) \<Longrightarrow> (hi = length a \<or> x \<le> a ! hi) \<Longrightarrow>
   (let r = bisect_left_loop a x lo hi in
      lo \<le> r \<and> r \<le> hi \<and> (r = 0 \<or> a ! (r - 1) < x) \<and> (r = length a \<or> x \<le> a ! r))"
proof (induction a x lo hi rule: bisect_left_loop.induct)
  case (1 a x lo hi)
  show ?case
  proof (cases "lo < hi")
    case False
    then have "bisect_left_loop a x lo hi = lo"
      by (simp add: bisect_left_loop.simps [of a x lo hi])
    with False "1.prems" show ?thesis
      by (auto simp: Let_def)
  next
    case True
    define mid where "mid = (lo + hi) div 2"
    have mid: "lo \<le> mid" "mid < hi" using True by (simp_all add: mid_def)
    show ?thesis
    proof (cases "a ! mid < x")
      case lt: True
      have "let r = bisect_left_loop a x (mid + 1) hi in
              mid + 1 \<le> r \<and> r \<le> hi \<and> (r = 0 \<or> a ! (r - 1) < x) \<and> (r = length a \<or> x \<le> a ! r)"
        using "1.IH"(1) [OF True mid_def lt] mid lt "1.prems" by simp
      moreover have "bisect_left_loop a x lo hi = bisect_left_loop a x (mid + 1) hi"
        using True lt by (simp add: bisect_left_loop.simps [of a x lo hi] mid_def Let_def)
      ultimately show ?thesis using mid by (auto simp: Let_def)
    next
      case ge: False
      have "let r = bisect_left_loop a x lo mid in
              lo \<le> r \<and> r \<le> mid \<and> (r = 0 \<or> a ! (r - 1) < x) \<and> (r = length a \<or> x \<le> a ! r)"
        using "1.IH"(2) [OF True mid_def ge] mid ge "1.prems" by simp
      moreover have "bisect_left_loop a x lo hi = bisect_left_loop a x lo mid"
        using True ge by (simp add: bisect_left_loop.simps [of a x lo hi] mid_def Let_def)
      ultimately show ?thesis using mid by (auto simp: Let_def)
    qed
  qed
qed

lemma bisect_left_bracket:
  "bisect_left a x \<le> length a \<and>
   (bisect_left a x = 0 \<or> a ! (bisect_left a x - 1) < x) \<and>
   (bisect_left a x = length a \<or> x \<le> a ! bisect_left a x)"
  using bisect_left_loop_bracket [of 0 "length a" a x]
  by (simp add: bisect_left_def Let_def)

lemma bisect_left_sorted_less:
  assumes "sorted a" "i < bisect_left a x"
  shows "a ! i < x"
proof -
  let ?r = "bisect_left a x"
  have r: "?r \<le> length a" "?r = 0 \<or> a ! (?r - 1) < x"
    using bisect_left_bracket [of a x] by auto
  with assms have "a ! (?r - 1) < x" by auto
  moreover have "a ! i \<le> a ! (?r - 1)"
    using assms r by (intro sorted_nth_mono) auto
  ultimately show ?thesis by simp
qed

lemma bisect_left_sorted_ge:
  assumes "sorted a" "bisect_left a x \<le> i" "i < length a"
  shows "x \<le> a ! i"
proof -
  let ?r = "bisect_left a x"
  have "?r = length a \<or> x \<le> a ! ?r"
    using bisect_left_bracket [of a x] by auto
  with assms have "x \<le> a ! ?r" by auto
  moreover have "a ! ?r \<le> a ! i"
    using assms by (intro sorted_nth_mono) auto
  ultimately show ?thesis by simp
qed

lemma bisect_left_sorted_eqI:
  assumes "sorted a" "k \<le> length a" "\<forall>i<k. a ! i < x" "\<forall>i. k \<le> i \<and> i < length a \<longrightarrow> x \<le> a ! i"
  shows "bisect_left a x = k"
proof (rule ccontr)
  assume ne: "bisect_left a x \<noteq> k"
  let ?r = "bisect_left a x"
  have rl: "?r \<le> length a" using bisect_left_bracket [of a x] by auto
  show False
  proof (cases "?r < k")
    case True
    then have "a ! ?r < x" using assms by auto
    moreover have "x \<le> a ! ?r" using bisect_left_sorted_ge [OF assms(1), of x ?r] True assms(2) by auto
    ultimately show False by simp
  next
    case False
    with ne have "k < ?r" by auto
    then have "a ! k < x" using bisect_left_sorted_less [OF assms(1)] by auto
    moreover have "x \<le> a ! k" using assms(4) \<open>k < ?r\<close> rl by auto
    ultimately show False by simp
  qed
qed


lemma bisect_left_between:
  assumes "sorted a" "Suc i < length a" "a ! i < x" "x \<le> a ! Suc i"
  shows "bisect_left a x = Suc i"
proof (rule bisect_left_sorted_eqI [OF assms(1)])
  show "Suc i \<le> length a" using assms(2) by simp
  show "\<forall>j<Suc i. a ! j < x"
  proof (intro allI impI)
    fix j assume "j < Suc i"
    then have "a ! j \<le> a ! i" using assms(1,2) by (intro sorted_nth_mono) auto
    then show "a ! j < x" using assms(3) by simp
  qed
  show "\<forall>j. Suc i \<le> j \<and> j < length a \<longrightarrow> x \<le> a ! j"
  proof (intro allI impI)
    fix j assume "Suc i \<le> j \<and> j < length a"
    then have "a ! Suc i \<le> a ! j" using assms(1) by (intro sorted_nth_mono) auto
    then show "x \<le> a ! j" using assms(4) by simp
  qed
qed

lemma bisect_left_member:
  assumes "sorted a" "i < length a" "a ! i = x"
  shows "bisect_left a x \<le> i \<and> a ! bisect_left a x = x"
proof -
  let ?r = "bisect_left a x"
  have le: "?r \<le> i"
  proof (rule ccontr)
    assume "\<not> ?r \<le> i"
    then have "a ! i < x" using bisect_left_sorted_less [OF assms(1), of i x] by simp
    with assms(3) show False by simp
  qed
  have "x \<le> a ! ?r" using bisect_left_sorted_ge [OF assms(1), of x ?r] le assms(2) by simp
  moreover have "a ! ?r \<le> a ! i" using assms(1,2) le by (intro sorted_nth_mono) auto
  ultimately show ?thesis using le assms(3) by simp
qed

lemma bisect_left_before_all:
  assumes "sorted a" "a \<noteq> []" "x < hd a"
  shows "bisect_left a x = 0"
proof (rule bisect_left_sorted_eqI [OF assms(1)])
  show "0 \<le> length a" by simp
  show "\<forall>i<0. a ! i < x" by simp
  show "\<forall>i. 0 \<le> i \<and> i < length a \<longrightarrow> x \<le> a ! i"
  proof (intro allI impI)
    fix i assume "0 \<le> i \<and> i < length a"
    then have "a ! 0 \<le> a ! i" using assms(1) by (intro sorted_nth_mono) auto
    moreover have "hd a = a ! 0" using assms(2) by (simp add: hd_conv_nth)
    ultimately show "x \<le> a ! i" using assms(3) by simp
  qed
qed

lemma bisect_left_after_all:
  assumes "sorted a" "a \<noteq> []" "last a < x"
  shows "bisect_left a x = length a"
proof (rule bisect_left_sorted_eqI [OF assms(1)])
  show "length a \<le> length a" by simp
  show "\<forall>i<length a. a ! i < x"
  proof (intro allI impI)
    fix i assume "i < length a"
    then have "a ! i \<le> a ! (length a - 1)" using assms(1) by (intro sorted_nth_mono) auto
    moreover have "last a = a ! (length a - 1)" using assms(2) by (simp add: last_conv_nth)
    ultimately show "a ! i < x" using assms(3) by simp
  qed
  show "\<forall>i. length a \<le> i \<and> i < length a \<longrightarrow> x \<le> a ! i" by simp
qed

subsection \<open>The interpolation\<close>

lemma total_seconds_pos [simp]: "0 < total_seconds d \<longleftrightarrow> 0 < d"
  by (simp add: total_seconds_def)

lemma total_seconds_eq_0 [simp]: "total_seconds d = 0 \<longleftrightarrow> d = 0"
  by (simp add: total_seconds_def)

lemma total_seconds_ratio: "total_seconds a / total_seconds b = real_of_int a / real_of_int b"
  by (simp add: total_seconds_def)

lemma interpolate_between_no_error: "interpolate_between b a q mg \<noteq> Inl e"
  by (simp add: interpolate_between_def Let_def py_truediv_def)

lemma interpolate_gps_no_error: "interpolate_gps tps q mg \<noteq> Inl e"
  by (simp add: interpolate_gps_def Let_def interpolate_between_no_error)

lemma interpolate_gps_at_bisect:
  assumes "sorted (map time tps)" and "i < length tps" and "time (tps ! i) = q"
  shows "bisect_left (map time tps) q \<le> i \<and>
         time (tps ! bisect_left (map time tps) q) = q \<and>
         interpolate_gps tps q mg = Inr (Some (pos_of (tps ! bisect_left (map time tps) q)))"
proof -
  have m: "bisect_left (map time tps) q \<le> i \<and> map time tps ! bisect_left (map time tps) q = q"
    using assms by (intro bisect_left_member) auto
  then have lt: "bisect_left (map time tps) q < length tps" using assms(2) by simp
  with m have t: "time (tps ! bisect_left (map time tps) q) = q" by simp
  have ne: "tps \<noteq> []" using assms(2) by auto
  show ?thesis using m lt t ne by (simp add: interpolate_gps_def Let_def)
qed

text \<open>
  Claim C1. On a timeline sorted by time, a query strictly between two adjacent points
  whose times differ by at most \<open>max_gap_seconds\<close> yields the position whose latitude,
  longitude and elevation are each \<open>before + (after - before) * ratio\<close>, where \<open>ratio\<close> is
  the elapsed time over the width of the bracket, and \<open>ratio\<close> lies between 0 and 1.
\<close>

theorem interpolate_gps_linear:
  assumes "sorted (map time tps)" and "Suc i < length tps"
    and "time (tps ! i) < q" and "q < time (tps ! Suc i)"
    and "total_seconds (time (tps ! Suc i) - time (tps ! i)) \<le> mg"
  shows "let before = tps ! i; after = tps ! Suc i;
             ratio = real_of_int (q - time before) / real_of_int (time after - time before)
         in interpolate_gps tps q mg =
              Inr (Some \<lparr>lat = lat before + (lat after - lat before) * ratio,
                         lon = lon before + (lon after - lon before) * ratio,
                         ele = ele before + (ele after - ele before) * ratio\<rparr>)
            \<and> 0 \<le> ratio \<and> ratio \<le> 1"
proof -
  have idx: "bisect_left (map time tps) q = Suc i"
    using assms by (intro bisect_left_between) auto
  have ne: "tps \<noteq> []" using assms(2) by auto
  have gap: "\<not> mg < total_seconds (time (tps ! Suc i) - time (tps ! i))"
    using assms(5) by simp
  have nz: "time (tps ! Suc i) - time (tps ! i) \<noteq> 0" using assms(3,4) by simp
  have res: "interpolate_gps tps q mg =
      Inr (Some \<lparr>lat = lat (tps ! i) + (lat (tps ! Suc i) - lat (tps ! i)) *
                     (total_seconds (q - time (tps ! i)) / total_seconds (time (tps ! Suc i) - time (tps ! i))),
                 lon = lon (tps ! i) + (lon (tps ! Suc i) - lon (tps ! i)) *
                     (total_seconds (q - time (tps ! i)) / total_seconds (time (tps ! Suc i) - time (tps ! i))),
                 ele = ele (tps ! i) + (ele (tps ! Suc i) - ele (tps ! i)) *
                     (total_seconds (q - time (tps ! i)) / total_seconds (time (tps ! Suc i) - time (tps ! i)))\<rparr>)"
    using ne assms(2,4) gap nz
    by (simp add: interpolate_gps_def interpolate_between_def Let_def idx py_truediv_def)
  have r0: "0 \<le> real_of_int (q - time (tps ! i)) / real_of_int (time (tps ! Suc i) - time (tps ! i))"
    using assms(3,4) by simp
  have r1: "real_of_int (q - time (tps ! i)) / real_of_int (time (tps ! Suc i) - time (tps ! i)) \<le> 1"
    using assms(3,4) by simp
  show ?thesis
    using res r0 r1 by (simp add: Let_def total_seconds_ratio)
qed

text \<open>
  The scenario of the specification: half way between two points 1000 seconds apart.
\<close>

theorem interpolate_gps_linear_witness:
  "sorted (map time scenario_timeline) \<and> Suc 0 < length scenario_timeline
   \<and> time (scenario_timeline ! 0) < 500000000 \<and> 500000000 < time (scenario_timeline ! Suc 0)
   \<and> total_seconds (time (scenario_timeline ! Suc 0) - time (scenario_timeline ! 0)) \<le> 3600
   \<and> interpolate_gps scenario_timeline 500000000 3600
        = Inr (Some \<lparr>lat = 10.005, lon = 20.01, ele = 2.5\<rparr>)"
  using interpolate_gps_linear [of scenario_timeline 0 500000000 3600]
  by (simp add: scenario_timeline_def total_seconds_def Let_def)

text \<open>
  Claim C2. On a timeline sorted by time, a query strictly inside a bracket of adjacent
  points whose times differ by more than \<open>max_gap_seconds\<close> yields \<open>None\<close>, wherever in the
  bracket the query lies.
\<close>

theorem interpolate_gps_wide_bracket:
  assumes "sorted (map time tps)" and "Suc i < length tps"
    and "time (tps ! i) < q" and "q < time (tps ! Suc i)"
    and "mg < total_seconds (time (tps ! Suc i) - time (tps ! i))"
  shows "interpolate_gps tps q mg = Inr None"
proof -
  have idx: "bisect_left (map time tps) q = Suc i"
    using assms by (intro bisect_left_between) auto
  have ne: "tps \<noteq> []" using assms(2) by auto
  show ?thesis
    using ne assms(2,4,5) by (simp add: interpolate_gps_def interpolate_between_def Let_def idx)
qed

text \<open>
  One microsecond after the first point of a bracket 1000 seconds wide, with a tolerance
  of 999 seconds.
\<close>

theorem interpolate_gps_wide_bracket_witness:
  "sorted (map time scenario_timeline) \<and> Suc 0 < length scenario_timeline
   \<and> time (scenario_timeline ! 0) < 1 \<and> 1 < time (scenario_timeline ! Suc 0)
   \<and> 999 < total_seconds (time (scenario_timeline ! Suc 0) - time (scenario_timeline ! 0))
   \<and> interpolate_gps scenario_timeline 1 999 = Inr None"
  using interpolate_gps_wide_bracket [of scenario_timeline 0 1 999]
  by (simp add: scenario_timeline_def total_seconds_def)

text \<open>
  Claim C3, as amended. On a timeline sorted by time, a query equal to the time of some
  point (\<open>tps ! i\<close>) takes the exact-match branch: the point at the insertion index \<open>idx\<close>
  has that very time, and its position is returned as it is, without interpolation. The
  index \<open>idx\<close> is at most \<open>i\<close>, and the position returned is that of \<open>tps ! i\<close> itself
  whenever no earlier point has the same time.
\<close>

theorem interpolate_gps_exact:
  assumes "sorted (map time tps)" and "i < length tps" and "time (tps ! i) = q"
  shows "(let idx = bisect_left (map time tps) q
          in idx \<le> i \<and> time (tps ! idx) = q \<and>
             interpolate_gps tps q mg = Inr (Some (pos_of (tps ! idx))))
       \<and> ((\<forall>j<i. time (tps ! j) \<noteq> q) \<longrightarrow>
             interpolate_gps tps q mg = Inr (Some (pos_of (tps ! i))))"
proof -
  let ?idx = "bisect_left (map time tps) q"
  have a: "?idx \<le> i \<and> time (tps ! ?idx) = q \<and>
           interpolate_gps tps q mg = Inr (Some (pos_of (tps ! ?idx)))"
    using interpolate_gps_at_bisect [OF assms] .
  have "interpolate_gps tps q mg = Inr (Some (pos_of (tps ! i)))"
    if first: "\<forall>j<i. time (tps ! j) \<noteq> q"
  proof -
    have "?idx = i" using a first by (cases "?idx < i") auto
    with a show ?thesis by simp
  qed
  with a show ?thesis by (simp add: Let_def)
qed

text \<open>
  The timeline with three points at time 5, queried at 5: the point of index 1 is the
  first of the three, the point of index 0 has another time, and the position returned
  is that of the point of index 1.
\<close>

theorem interpolate_gps_exact_witness:
  "sorted (map time duplicate_timeline) \<and> Suc 0 < length duplicate_timeline
   \<and> time (duplicate_timeline ! Suc 0) = 5
   \<and> time (duplicate_timeline ! 0) \<noteq> 5
   \<and> interpolate_gps duplicate_timeline 5 3600 = Inr (Some \<lparr>lat = 2, lon = 2, ele = 2\<rparr>)"
  using interpolate_gps_exact [of duplicate_timeline "Suc 0" 5 3600]
  by (simp add: duplicate_timeline_def pos_of_def)

lemma bisect_duplicate_5: "bisect_left (map time duplicate_timeline) 5 = 1"
  by (simp add: duplicate_timeline_def bisect_left_def bisect_left_loop.simps)

lemma duplicate_5:
  "interpolate_gps duplicate_timeline 5 3600 = Inr (Some \<lparr>lat = 2, lon = 2, ele = 2\<rparr>)"
  by (simp add: interpolate_gps_def bisect_duplicate_5 Let_def)
     (simp add: duplicate_timeline_def pos_of_def)

text \<open>
  The claim as the specification states it, that the position returned is the one of
  whichever point has the time of the query, fails on the same timeline: the point of
  index 2 has the time of the query, and its position is not the one returned.
\<close>

theorem interpolate_gps_exact_counterexample:
  "sorted (map time duplicate_timeline) \<and> 2 < length duplicate_timeline
   \<and> time (duplicate_timeline ! 2) = 5
   \<and> pos_of (duplicate_timeline ! 2) = \<lparr>lat = 3, lon = 3, ele = 3\<rparr>
   \<and> interpolate_gps duplicate_timeline 5 3600 = Inr (Some \<lparr>lat = 2, lon = 2, ele = 2\<rparr>)
   \<and> interpolate_gps duplicate_timeline 5 3600 \<noteq> Inr (Some (pos_of (duplicate_timeline ! 2)))"
  by (simp add: duplicate_5) (simp add: duplicate_timeline_def pos_of_def)

text \<open>
  Claim C4. On a non-empty timeline sorted by time, a query strictly before the first
  point yields \<open>None\<close> exactly when the first point is more than \<open>max_gap_seconds\<close> away,
  and the first point's position otherwise; a query strictly after the last point does
  the same with the last point.
\<close>

theorem interpolate_gps_outside:
  assumes "sorted (map time tps)" and "tps \<noteq> []"
  shows "(q < time (hd tps) \<longrightarrow>
            interpolate_gps tps q mg =
              (if total_seconds (time (hd tps) - q) \<le> mg then Inr (Some (pos_of (hd tps)))
               else Inr None))
       \<and> (time (last tps) < q \<longrightarrow>
            interpolate_gps tps q mg =
              (if total_seconds (q - time (last tps)) \<le> mg then Inr (Some (pos_of (last tps)))
               else Inr None))"
proof (intro conjI impI)
  assume lt: "q < time (hd tps)"
  have "bisect_left (map time tps) q = 0"
    using assms lt by (intro bisect_left_before_all) (simp_all add: hd_map)
  moreover have "hd tps = tps ! 0" using assms(2) by (simp add: hd_conv_nth)
  ultimately show "interpolate_gps tps q mg =
      (if total_seconds (time (hd tps) - q) \<le> mg then Inr (Some (pos_of (hd tps))) else Inr None)"
    using assms(2) lt by (simp add: interpolate_gps_def Let_def)
next
  assume gt: "time (last tps) < q"
  have "bisect_left (map time tps) q = length tps"
    using assms gt bisect_left_after_all [of "map time tps" q] by (simp add: last_map)
  then show "interpolate_gps tps q mg =
      (if total_seconds (q - time (last tps)) \<le> mg then Inr (Some (pos_of (last tps))) else Inr None)"
    using assms(2) by (simp add: interpolate_gps_def Let_def)
qed

text \<open>
  Around the scenario timeline with a tolerance of one hour: 100 seconds before the first
  point, two hours before it, 100 seconds after the last point, and the scenario of the
  specification, 4000 seconds after it.
\<close>

theorem interpolate_gps_outside_witness:
  "sorted (map time scenario_timeline) \<and> scenario_timeline \<noteq> []
   \<and> - 100000000 < time (hd scenario_timeline)
   \<and> interpolate_gps scenario_timeline (- 100000000) 3600
        = Inr (Some \<lparr>lat = 10, lon = 20, ele = 0\<rparr>)
   \<and> - 7200000000 < time (hd scenario_timeline)
   \<and> interpolate_gps scenario_timeline (- 7200000000) 3600 = Inr None
   \<and> time (last scenario_timeline) < 1100000000
   \<and> interpolate_gps scenario_timeline 1100000000 3600
        = Inr (Some \<lparr>lat = 10.01, lon = 20.02, ele = 5\<rparr>)
   \<and> time (last scenario_timeline) < 5000000000
   \<and> interpolate_gps scenario_timeline 5000000000 3600 = Inr None"
  using interpolate_gps_outside [of scenario_timeline "- 100000000" 3600]
    interpolate_gps_outside [of scenario_timeline "- 7200000000" 3600]
    interpolate_gps_outside [of scenario_timeline 1100000000 3600]
    interpolate_gps_outside [of scenario_timeline 5000000000 3600]
  by (simp add: scenario_timeline_def total_seconds_def pos_of_def)




text \<open>
  Claim C10. On a timeline sorted by time in which one or several points have the time of
  the query, the position returned is that of the first such point in timeline order.
\<close>

theorem interpolate_gps_leftmost:
  assumes "sorted (map time tps)" and "find (\<lambda>p. time p = q) tps = Some p"
  shows "interpolate_gps tps q mg = Inr (Some (pos_of p))"
proof -
  from assms(2) obtain i where i: "i < length tps" "time (tps ! i) = q" "p = tps ! i"
    and first: "\<forall>j<i. time (tps ! j) \<noteq> q"
    by (auto simp: find_Some_iff)
  let ?idx = "bisect_left (map time tps) q"
  have a: "?idx \<le> i \<and> time (tps ! ?idx) = q \<and>
           interpolate_gps tps q mg = Inr (Some (pos_of (tps ! ?idx)))"
    using interpolate_gps_at_bisect [OF assms(1) i(1,2)] .
  then have "?idx = i" using first by (cases "?idx < i") auto
  with a i(3) show ?thesis by simp
qed

text \<open>Three points at the time of the query, with three different positions.\<close>

theorem interpolate_gps_leftmost_witness:
  "sorted (map time duplicate_timeline)
   \<and> find (\<lambda>p. time p = 5) duplicate_timeline = Some \<lparr>lat = 2, lon = 2, ele = 2, time = 5\<rparr>
   \<and> interpolate_gps duplicate_timeline 5 3600 = Inr (Some \<lparr>lat = 2, lon = 2, ele = 2\<rparr>)"
  using interpolate_gps_leftmost [of duplicate_timeline 5 "\<lparr>lat = 2, lon = 2, ele = 2, time = 5\<rparr>" 3600]
  by (simp add: duplicate_timeline_def pos_of_def)

subsection \<open>The matching loop\<close>

lemma match_photo_total:
  "\<exists>r. match_photo tps mg p =
          Inr (r, if \<not> has_gps p \<and> photo_time p \<noteq> None then [the (photo_time p)] else [])"
  using interpolate_gps_no_error [of tps _ mg]
  by (auto simp: match_photo_def split: option.splits sum.splits)

lemma match_photo_chain:
  assumes "match_photo tps mg p = Inr (r, c)"
  shows "(if has_gps p then status r = ''has_gps''
          else if photo_time p = None then status r = ''no_time''
          else (case interpolate_gps tps (the (photo_time p)) mg of
                  Inr (Some g) \<Rightarrow>
                    status r = ''matched'' \<and> matched_lat r = Some (lat g) \<and>
                    matched_lon r = Some (lon g) \<and> matched_ele r = Some (ele g)
                | _ \<Rightarrow> status r = ''no_match''))
       \<and> ((matched_lat r \<noteq> None \<and> matched_lon r \<noteq> None \<and> matched_ele r \<noteq> None)
            = (status r = ''matched''))
       \<and> ((matched_lat r = None \<and> matched_lon r = None \<and> matched_ele r = None)
            = (status r \<noteq> ''matched''))"
  using assms
  by (auto simp: match_photo_def set_status_def set_matched_def split: option.splits sum.splits if_splits)

lemma match_photos_total:
  "\<exists>rs. match_photos tps mg ps =
          Inr (rs, map (the \<circ> photo_time) (filter (\<lambda>p. \<not> has_gps p \<and> photo_time p \<noteq> None) ps))
        \<and> length rs = length ps
        \<and> (\<forall>i<length ps. \<exists>c. match_photo tps mg (ps ! i) = Inr (rs ! i, c))"
proof (induction ps)
  case Nil
  show ?case by simp
next
  case (Cons p ps)
  from Cons obtain rs where rs: "match_photos tps mg ps =
          Inr (rs, map (the \<circ> photo_time) (filter (\<lambda>p. \<not> has_gps p \<and> photo_time p \<noteq> None) ps))"
     "length rs = length ps" "\<forall>i<length ps. \<exists>c. match_photo tps mg (ps ! i) = Inr (rs ! i, c)"
    by blast
  obtain r where r: "match_photo tps mg p =
          Inr (r, if \<not> has_gps p \<and> photo_time p \<noteq> None then [the (photo_time p)] else [])"
    using match_photo_total by blast
  have "\<forall>i<length (p # ps). \<exists>c. match_photo tps mg ((p # ps) ! i) = Inr ((r # rs) ! i, c)"
  proof (intro allI impI)
    fix i assume "i < length (p # ps)"
    then show "\<exists>c. match_photo tps mg ((p # ps) ! i) = Inr ((r # rs) ! i, c)"
      using r rs(3) by (cases i) auto
  qed
  then show ?case using r rs(1,2)
    by (intro exI [of _ "r # rs"]) simp
qed


text \<open>
  Claim C6. The loop returns for every batch, with one result per photo, and each result
  follows the chain: a photo that has GPS gets the status \<open>has_gps\<close>; otherwise a photo
  without capture time gets \<open>no_time\<close>; otherwise the status is \<open>matched\<close>, with the
  position that \<open>interpolate_gps\<close> returned, when it returned one, and \<open>no_match\<close> when it
  returned \<open>None\<close>. The three position keys are set exactly when the status is \<open>matched\<close>.
  \<open>interpolate_gps\<close> is called for the photos that have no GPS and have a capture time, once
  each and in order, and for no other photo.
\<close>

theorem match_photos_classification:
  "\<exists>rs. match_photos tps mg ps =
          Inr (rs, map (the \<circ> photo_time) (filter (\<lambda>p. \<not> has_gps p \<and> photo_time p \<noteq> None) ps))
        \<and> length rs = length ps
        \<and> (\<forall>i<length ps.
             let p = ps ! i; r = rs ! i in
               (if has_gps p then status r = ''has_gps''
                else if photo_time p = None then status r = ''no_time''
                else (case interpolate_gps tps (the (photo_time p)) mg of
                        Inr (Some g) \<Rightarrow>
                          status r = ''matched'' \<and> matched_lat r = Some (lat g) \<and>
                          matched_lon r = Some (lon g) \<and> matched_ele r = Some (ele g)
                      | _ \<Rightarrow> status r = ''no_match''))
             \<and> ((matched_lat r \<noteq> None \<and> matched_lon r \<noteq> None \<and> matched_ele r \<noteq> None)
                  = (status r = ''matched''))
             \<and> ((matched_lat r = None \<and> matched_lon r = None \<and> matched_ele r = None)
                  = (status r \<noteq> ''matched'')))"
proof -
  obtain rs where rs: "match_photos tps mg ps =
          Inr (rs, map (the \<circ> photo_time) (filter (\<lambda>p. \<not> has_gps p \<and> photo_time p \<noteq> None) ps))"
     "length rs = length ps" "\<forall>i<length ps. \<exists>c. match_photo tps mg (ps ! i) = Inr (rs ! i, c)"
    using match_photos_total by blast
  show ?thesis
  proof (intro exI [of _ rs] conjI allI impI)
    show "match_photos tps mg ps =
          Inr (rs, map (the \<circ> photo_time) (filter (\<lambda>p. \<not> has_gps p \<and> photo_time p \<noteq> None) ps))"
      by (rule rs(1))
    show "length rs = length ps" by (rule rs(2))
  next
    fix i assume "i < length ps"
    then obtain c where "match_photo tps mg (ps ! i) = Inr (rs ! i, c)" using rs(3) by blast
    from match_photo_chain [OF this]
    show "let p = ps ! i; r = rs ! i in
               (if has_gps p then status r = ''has_gps''
                else if photo_time p = None then status r = ''no_time''
                else (case interpolate_gps tps (the (photo_time p)) mg of
                        Inr (Some g) \<Rightarrow>
                          status r = ''matched'' \<and> matched_lat r = Some (lat g) \<and>
                          matched_lon r = Some (lon g) \<and> matched_ele r = Some (ele g)
                      | _ \<Rightarrow> status r = ''no_match''))
             \<and> ((matched_lat r \<noteq> None \<and> matched_lon r \<noteq> None \<and> matched_ele r \<noteq> None)
                  = (status r = ''matched''))
             \<and> ((matched_lat r = None \<and> matched_lon r = None \<and> matched_ele r = None)
                  = (status r \<noteq> ''matched''))"
      unfolding Let_def .
  qed
qed

lemma bisect_scenario_500: "bisect_left (map time scenario_timeline) 500000000 = 1"
  by (simp add: scenario_timeline_def bisect_left_def bisect_left_loop.simps)

lemma bisect_scenario_5000: "bisect_left (map time scenario_timeline) 5000000000 = 2"
  by (simp add: scenario_timeline_def bisect_left_def bisect_left_loop.simps)

lemma scenario_500:
  "interpolate_gps scenario_timeline 500000000 3600 = Inr (Some \<lparr>lat = 10.005, lon = 20.01, ele = 2.5\<rparr>)"
  by (simp add: interpolate_gps_def interpolate_between_def bisect_scenario_500 Let_def)
     (simp add: scenario_timeline_def total_seconds_def py_truediv_def)

lemma scenario_5000: "interpolate_gps scenario_timeline 5000000000 3600 = Inr None"
  by (simp add: interpolate_gps_def bisect_scenario_5000 Let_def)
     (simp add: scenario_timeline_def total_seconds_def)

text \<open>
  The example batch: a photo with GPS, one without capture time, one taken 500 seconds
  into the track and one taken 4000 seconds after its end.
\<close>

theorem match_photos_classification_witness:
  "\<exists>rs. match_photos scenario_timeline 3600 example_photos = Inr (rs, [500000000, 5000000000])
        \<and> map status rs = [''has_gps'', ''no_time'', ''matched'', ''no_match'']
        \<and> map matched_lat rs = [None, None, Some 10.005, None]
        \<and> map matched_lon rs = [None, None, Some 20.01, None]
        \<and> map matched_ele rs = [None, None, Some 2.5, None]"
proof -
  obtain rs where rs: "match_photos scenario_timeline 3600 example_photos =
      Inr (rs, map (the \<circ> photo_time) (filter (\<lambda>p. \<not> has_gps p \<and> photo_time p \<noteq> None) example_photos))"
    using match_photos_classification [of scenario_timeline 3600 example_photos] by blast
  have calls: "map (the \<circ> photo_time) (filter (\<lambda>p. \<not> has_gps p \<and> photo_time p \<noteq> None) example_photos)
      = [500000000, 5000000000]"
    by (simp add: example_photos_def)
  have run: "match_photos scenario_timeline 3600 example_photos =
      Inr (map (\<lambda>(p, s, g). case g of None \<Rightarrow> set_status p s | Some pos \<Rightarrow> set_matched p pos)
             [(example_photos ! 0, ''has_gps'', None),
              (example_photos ! 1, ''no_time'', None),
              (example_photos ! 2, ''matched'', Some \<lparr>lat = 10.005, lon = 20.01, ele = 2.5\<rparr>),
              (example_photos ! 3, ''no_match'', None)],
           [500000000, 5000000000])"
    by (simp add: example_photos_def match_photo_def scenario_500 scenario_5000)
  have "rs = map (\<lambda>(p, s, g). case g of None \<Rightarrow> set_status p s | Some pos \<Rightarrow> set_matched p pos)
             [(example_photos ! 0, ''has_gps'', None),
              (example_photos ! 1, ''no_time'', None),
              (example_photos ! 2, ''matched'', Some \<lparr>lat = 10.005, lon = 20.01, ele = 2.5\<rparr>),
              (example_photos ! 3, ''no_match'', None)]"
    using rs run by simp
  then have "map status rs = [''has_gps'', ''no_time'', ''matched'', ''no_match'']"
    and "map matched_lat rs = [None, None, Some 10.005, None]"
    and "map matched_lon rs = [None, None, Some 20.01, None]"
    and "map matched_ele rs = [None, None, Some 2.5, None]"
    by (simp_all add: set_status_def set_matched_def)
  with rs calls show ?thesis by simp
qed


subsection \<open>The track loader\<close>

lemma fold_snoc_concat:
  assumes "\<And>acc x. h x acc = acc @ g x"
  shows "fold h xs acc = acc @ concat (map g xs)"
  using assms by (induction xs arbitrary: acc) simp_all

lemma concat_map_concat_map:
  "concat (map (\<lambda>x. concat (map f (g x))) xs) = concat (map f (concat (map g xs)))"
  by (induction xs) simp_all

lemma concat_map_concat_fun:
  "concat (map (\<lambda>x. concat (g x)) xs) = concat (concat (map g xs))"
  by (induction xs) simp_all

lemma concat_map_concat:
  "concat (map (\<lambda>ys. concat (map f ys)) yss) = concat (map f (concat yss))"
  by (induction yss) simp_all

lemma append_point_eq: "append_point acc point = acc @ append_point [] point"
  by (simp add: append_point_def split: option.splits)

lemma fold_append_point:
  "fold (\<lambda>point acc. append_point acc point) pts acc = acc @ concat (map (append_point []) pts)"
  by (rule fold_snoc_concat) (rule append_point_eq)

lemma append_gpx_eq:
  "append_gpx acc g =
     acc @ concat (map (append_point []) (concat (concat (map segments (tracks g)))))
         @ concat (map (append_point []) (waypoints g))"
proof -
  have seg: "\<And>track acc. fold (\<lambda>segment acc'. fold (\<lambda>point acc''. append_point acc'' point) segment acc')
                      (segments track) acc
        = acc @ concat (map (\<lambda>segment. concat (map (append_point []) segment)) (segments track))"
    by (rule fold_snoc_concat) (rule fold_append_point)
  have tr: "fold (\<lambda>track acc.
                    fold (\<lambda>segment acc'. fold (\<lambda>point acc''. append_point acc'' point) segment acc')
                      (segments track) acc)
              (tracks g) acc
        = acc @ concat (map (\<lambda>track. concat (map (\<lambda>segment. concat (map (append_point []) segment)) (segments track))) (tracks g))"
    by (rule fold_snoc_concat) (rule seg)
  have flat: "concat (map (\<lambda>track. concat (map (\<lambda>segment. concat (map (append_point []) segment)) (segments track))) (tracks g))
        = concat (map (append_point []) (concat (concat (map segments (tracks g)))))"
    by (simp add: concat_map_concat concat_map_concat_map concat_map_concat_fun)
  show ?thesis
    unfolding append_gpx_def Let_def tr flat by (simp add: fold_append_point)
qed


lemma collect_trackpoints_eq:
  "collect_trackpoints parse paths =
     concat (map (\<lambda>gpx_file. case parse gpx_file of
                    None \<Rightarrow> []
                  | Some g \<Rightarrow>
                      concat (map (append_point []) (concat (concat (map segments (tracks g)))))
                      @ concat (map (append_point []) (waypoints g)))
              (sort paths))"
proof -
  have "fold (\<lambda>gpx_file acc. case parse gpx_file of None \<Rightarrow> acc | Some g \<Rightarrow> append_gpx acc g)
          (sort paths) []
      = [] @ concat (map (\<lambda>gpx_file. case parse gpx_file of
                    None \<Rightarrow> []
                  | Some g \<Rightarrow>
                      concat (map (append_point []) (concat (concat (map segments (tracks g)))))
                      @ concat (map (append_point []) (waypoints g)))
              (sort paths))"
    by (rule fold_snoc_concat) (simp add: append_gpx_eq split: option.splits)
  then show ?thesis by (simp add: collect_trackpoints_def)
qed

text \<open>
  Claim C5. Whatever the files contain and in whatever order \<open>glob\<close> lists them, the
  list returned by \<open>parse_gpx_files\<close> is non-decreasing in time, and the points that share
  a time \<open>t\<close> appear in the order in which the loops found them.
\<close>

theorem parse_gpx_files_sorted_stable:
  "sorted (map time (parse_gpx_files parse paths)) \<and>
   filter (\<lambda>p. time p = t) (parse_gpx_files parse paths)
     = filter (\<lambda>p. time p = t) (collect_trackpoints parse paths)"
proof (cases "sort paths = []")
  case True
  then show ?thesis by (simp add: parse_gpx_files_def collect_trackpoints_def)
next
  case False
  then show ?thesis by (simp add: parse_gpx_files_def Let_def sort_key_stable)
qed


subsection \<open>The GeoJSON export\<close>

lemma segment_coords_eq:
  "segment_coords segment = map (\<lambda>point. [longitude point, latitude point]) segment"
proof -
  have "fold (\<lambda>point coords. coords @ [[longitude point, latitude point]]) segment []
      = [] @ concat (map (\<lambda>point. [[longitude point, latitude point]]) segment)"
    by (rule fold_snoc_concat) simp
  then show ?thesis by (simp add: segment_coords_def)
qed

lemma append_segment_eq:
  "append_segment gpx_file track feats segment =
     feats @ map segment_feature (filter (\<lambda>(f, t, s). s \<noteq> []) [(gpx_file, track, segment)])"
  by (simp add: append_segment_def segment_coords_eq Let_def segment_feature_def)

lemma map_filter_concat:
  "concat (map (\<lambda>x. map h (filter P (g x))) xs) = map h (filter P (concat (map g xs)))"
  by (induction xs) simp_all

lemma append_features_eq:
  "append_features gpx_file feats g =
     feats @ map segment_feature (filter (\<lambda>(f, t, s). s \<noteq> []) (file_segments gpx_file g))"
proof -
  have seg: "\<And>track acc. fold (\<lambda>segment acc'. append_segment gpx_file track acc' segment) (segments track) acc
      = acc @ concat (map (\<lambda>segment. map segment_feature (filter (\<lambda>(f, t, s). s \<noteq> []) [(gpx_file, track, segment)]))
                        (segments track))"
    by (rule fold_snoc_concat) (rule append_segment_eq)
  have seg': "\<And>track acc. fold (\<lambda>segment acc'. append_segment gpx_file track acc' segment) (segments track) acc
      = acc @ map segment_feature (filter (\<lambda>(f, t, s). s \<noteq> [])
                  (map (\<lambda>segment. (gpx_file, track, segment)) (segments track)))"
    unfolding seg map_filter_concat by simp
  have "fold (\<lambda>track acc. fold (\<lambda>segment acc'. append_segment gpx_file track acc' segment)
                         (segments track) acc) (tracks g) feats
      = feats @ concat (map (\<lambda>track. map segment_feature (filter (\<lambda>(f, t, s). s \<noteq> [])
                  (map (\<lambda>segment. (gpx_file, track, segment)) (segments track)))) (tracks g))"
    by (rule fold_snoc_concat) (rule seg')
  then show ?thesis
    unfolding append_features_def file_segments_def map_filter_concat .
qed

lemma all_segments_parsed:
  assumes "(gpx_file, track, segment) \<in> set (all_segments parse paths)"
  shows "\<exists>g. parse gpx_file = Some g \<and> track \<in> set (tracks g)"
  using assms by (auto simp: all_segments_def file_segments_def split: option.splits) metis

lemma get_gpx_track_geojson_eq:
  "get_gpx_track_geojson parse paths =
     \<lparr>collection_type = ''FeatureCollection'',
      features =
        map segment_feature
          (filter (\<lambda>(gpx_file, track, segment). segment \<noteq> []) (all_segments parse paths))\<rparr>"
proof -
  have "fold (\<lambda>gpx_file acc. case parse gpx_file of None \<Rightarrow> acc
                              | Some g \<Rightarrow> append_features gpx_file acc g) (sort paths) []
      = [] @ concat (map (\<lambda>gpx_file. map segment_feature (filter (\<lambda>(f, t, s). s \<noteq> [])
                 (case parse gpx_file of None \<Rightarrow> [] | Some g \<Rightarrow> file_segments gpx_file g))) (sort paths))"
    by (rule fold_snoc_concat) (simp add: append_features_eq split: option.splits)
  then have "fold (\<lambda>gpx_file acc. case parse gpx_file of None \<Rightarrow> acc
                              | Some g \<Rightarrow> append_features gpx_file acc g) (sort paths) []
      = map segment_feature (filter (\<lambda>(f, t, s). s \<noteq> []) (all_segments parse paths))"
    unfolding map_filter_concat all_segments_def by simp
  then show ?thesis
    by (simp add: get_gpx_track_geojson_def)
qed

text \<open>
  Claim C9, as amended. The export is a \<open>FeatureCollection\<close> with one \<open>LineString\<close>
  feature for every track segment that has at least one point, over the files that parse,
  in the order of the visit; a segment without points gives no feature. The coordinates
  are the points of the segment as \<open>[longitude, latitude]\<close>, in order, and the name is the
  track's name or, when the track has none, the file name (the last component of the
  path). The hypothesis is what \<open>gpxpy\<close> guarantees of a name it reports: it is not the
  empty text.
\<close>

theorem get_gpx_track_geojson_features:
  assumes "\<And>gpx_file g track.
             parse gpx_file = Some g \<Longrightarrow> track \<in> set (tracks g) \<Longrightarrow> name track \<noteq> Some []"
  shows "get_gpx_track_geojson parse paths =
     \<lparr>collection_type = ''FeatureCollection'',
      features =
        map (\<lambda>(gpx_file, track, segment).
               \<lparr>feature_type = ''Feature'',
                properties_name =
                  (case name track of
                     Some n \<Rightarrow> n
                   | None \<Rightarrow> rev (takeWhile (\<lambda>c. c \<noteq> CHR ''/'') (rev gpx_file))),
                geometry = \<lparr>geometry_type = ''LineString'',
                            coordinates = map (\<lambda>point. [longitude point, latitude point]) segment\<rparr>\<rparr>)
          (filter (\<lambda>(gpx_file, track, segment). segment \<noteq> []) (all_segments parse paths))\<rparr>"
proof -
  have "segment_feature x =
          (\<lambda>(gpx_file, track, segment).
               \<lparr>feature_type = ''Feature'',
                properties_name =
                  (case name track of
                     Some n \<Rightarrow> n
                   | None \<Rightarrow> rev (takeWhile (\<lambda>c. c \<noteq> CHR ''/'') (rev gpx_file))),
                geometry = \<lparr>geometry_type = ''LineString'',
                            coordinates = map (\<lambda>point. [longitude point, latitude point]) segment\<rparr>\<rparr>) x"
    if "x \<in> set (filter (\<lambda>(gpx_file, track, segment). segment \<noteq> []) (all_segments parse paths))"
    for x
  proof -
    obtain gpx_file track segment where x: "x = (gpx_file, track, segment)"
      by (cases x) auto
    with that have "(gpx_file, track, segment) \<in> set (all_segments parse paths)" by simp
    then obtain g where "parse gpx_file = Some g" "track \<in> set (tracks g)"
      using all_segments_parsed by blast
    then have "name track \<noteq> Some []" using assms by blast
    then show ?thesis
      by (simp add: x segment_feature_def feature_name_def basename_def split: option.splits)
  qed
  then show ?thesis
    unfolding get_gpx_track_geojson_eq by (simp cong: map_cong)
qed

text \<open>
  The file \<open>walk.gpx\<close>, listed after a file that does not parse: the named track gives
  one feature (its second segment has no points), the track without name gives one
  feature named after the file.
\<close>

lemma sort_walk_paths:
  "sort [''/photos/gpx/walk.gpx'', ''/photos/gpx/broken.gpx'']
     = [''/photos/gpx/broken.gpx'', ''/photos/gpx/walk.gpx'']"
  by code_simp

lemma all_segments_walk:
  "all_segments walk_parse [''/photos/gpx/walk.gpx'', ''/photos/gpx/broken.gpx''] =
     [(''/photos/gpx/walk.gpx'', tracks walk_gpx ! 0, segments (tracks walk_gpx ! 0) ! 0),
      (''/photos/gpx/walk.gpx'', tracks walk_gpx ! 0, []),
      (''/photos/gpx/walk.gpx'', tracks walk_gpx ! 1, segments (tracks walk_gpx ! 1) ! 0)]"
  by (simp add: all_segments_def sort_walk_paths walk_parse_def file_segments_def)
     (simp add: walk_gpx_def)

theorem get_gpx_track_geojson_features_witness:
  "name (tracks walk_gpx ! 0) = Some ''Morning'' \<and> name (tracks walk_gpx ! 1) = None
   \<and> get_gpx_track_geojson walk_parse [''/photos/gpx/walk.gpx'', ''/photos/gpx/broken.gpx''] =
       \<lparr>collection_type = ''FeatureCollection'',
        features =
          [\<lparr>feature_type = ''Feature'', properties_name = ''Morning'',
            geometry = \<lparr>geometry_type = ''LineString'', coordinates = [[20, 10], [21, 11]]\<rparr>\<rparr>,
           \<lparr>feature_type = ''Feature'', properties_name = ''walk.gpx'',
            geometry = \<lparr>geometry_type = ''LineString'', coordinates = [[22, 12]]\<rparr>\<rparr>]\<rparr>"
proof -
  have names: "\<And>gpx_file g track.
      walk_parse gpx_file = Some g \<Longrightarrow> track \<in> set (tracks g) \<Longrightarrow> name track \<noteq> Some []"
    by (auto simp: walk_parse_def walk_gpx_def split: if_splits)
  show ?thesis
    using get_gpx_track_geojson_features
      [of walk_parse "[''/photos/gpx/walk.gpx'', ''/photos/gpx/broken.gpx'']", OF names]
    by (simp add: all_segments_walk) (simp add: walk_gpx_def)
qed

text \<open>
  The claim as the specification states it, one feature for every segment, fails on a
  file whose track has a segment without points: the file has one segment and the
  export has no feature.
\<close>

theorem get_gpx_track_geojson_counterexample:
  "all_segments example_parse [''a.gpx'']
     = [(''a.gpx'', \<lparr>name = Some ''Morning'', segments = [[]]\<rparr>, [])]
   \<and> features (get_gpx_track_geojson example_parse [''a.gpx'']) = []
   \<and> get_gpx_track_geojson example_parse [''a.gpx'']
       \<noteq> spec_track_geojson example_parse [''a.gpx'']"
  by (simp add: get_gpx_track_geojson_def spec_track_geojson_def all_segments_def file_segments_def
        example_parse_def empty_segment_gpx_def append_features_def append_segment_def
        segment_coords_def Let_def)

subsection \<open>The timestamp of a photo\<close>

lemma try_formats_None:
  "try_formats strptime s fmts = None \<longleftrightarrow> (\<forall>fmt\<in>set fmts. strptime s fmt = None)"
  by (induction fmts) (auto split: option.splits)

text \<open>
  Claim C8. \<open>_parse_exiftool_datetime\<close> returns \<open>None\<close>, and raises nothing, when the
  timestamp text (\<open>DateTimeOriginal\<close>, or \<open>CreateDate\<close> when that is absent or empty) is
  absent, is empty, is the all-zero text \<open>0000:00:00 00:00:00\<close>, or matches no pattern:
  \<open>strptime\<close> rejects the stripped text with each of the three formats, and rejects what
  precedes its first dot with the first format. This holds whatever \<open>strptime\<close>,
  \<open>str.strip\<close>, \<open>int\<close> and the local time zone do.
\<close>

theorem parse_exiftool_datetime_absent:
  assumes "date_str = py_or (info ''DateTimeOriginal'') (info ''CreateDate'')"
    and "date_str = None \<or> date_str = Some [] \<or> date_str = Some ''0000:00:00 00:00:00'' \<or>
         (\<exists>s. date_str = Some s \<and>
              (\<forall>fmt\<in>set formats. strptime (strip s) fmt = None) \<and>
              strptime (hd (split_on CHR ''.'' (strip s))) ''%Y:%m:%d %H:%M:%S'' = None)"
  shows "parse_exiftool_datetime strptime strip py_int local_utcoffset info = Inr None"
proof -
  from assms(2) consider
      "date_str = None" | "date_str = Some []" | "date_str = Some ''0000:00:00 00:00:00''"
    | s where "date_str = Some s"
        "\<forall>fmt\<in>set formats. strptime (strip s) fmt = None"
        "strptime (hd (split_on CHR ''.'' (strip s))) ''%Y:%m:%d %H:%M:%S'' = None"
    by blast
  then show ?thesis
  proof cases
    case 1
    then show ?thesis using assms(1) by (simp add: parse_exiftool_datetime_def)
  next
    case 2
    then show ?thesis using assms(1) by (simp add: parse_exiftool_datetime_def)
  next
    case 3
    then show ?thesis using assms(1) by (simp add: parse_exiftool_datetime_def)
  next
    case 4
    have "try_formats strptime (strip s) formats = None"
      using 4(2) by (simp add: try_formats_None)
    then have "match_date_str strptime strip s = None"
      using 4(3) by (simp add: match_date_str_def)
    moreover have "py_or (info ''DateTimeOriginal'') (info ''CreateDate'') = Some s"
      using assms(1) 4(1) by simp
    ultimately show ?thesis
      by (simp add: parse_exiftool_datetime_def)
  qed
qed

lemma strip_example: "latin1_strip '' yesterday.5  '' = ''yesterday.5''"
  by (simp add: latin1_strip_def is_space_def)

text \<open>
  No timestamp key; two empty texts; the all-zero text next to a valid \<open>CreateDate\<close>; a
  text that no pattern matches.
\<close>

theorem parse_exiftool_datetime_absent_witness:
  "py_or (Map.empty ''DateTimeOriginal'') (Map.empty ''CreateDate'') = None
   \<and> parse_exiftool_datetime example_strptime latin1_strip (\<lambda>s. None) (\<lambda>t. 0) Map.empty = Inr None
   \<and> parse_exiftool_datetime example_strptime latin1_strip (\<lambda>s. None) (\<lambda>t. 0)
        [''DateTimeOriginal'' \<mapsto> [], ''CreateDate'' \<mapsto> []] = Inr None
   \<and> parse_exiftool_datetime example_strptime latin1_strip (\<lambda>s. None) (\<lambda>t. 0)
        [''DateTimeOriginal'' \<mapsto> ''0000:00:00 00:00:00'', ''CreateDate'' \<mapsto> ''2024:05:01 12:00:00'']
       = Inr None
   \<and> map (example_strptime (latin1_strip '' yesterday.5  '')) formats = [None, None, None]
   \<and> example_strptime (hd (split_on CHR ''.'' (latin1_strip '' yesterday.5  '')))
         ''%Y:%m:%d %H:%M:%S'' = None
   \<and> parse_exiftool_datetime example_strptime latin1_strip (\<lambda>s. None) (\<lambda>t. 0)
        [''CreateDate'' \<mapsto> '' yesterday.5  ''] = Inr None"
proof (intro conjI)
  show "py_or (Map.empty ''DateTimeOriginal'') (Map.empty ''CreateDate'') = None"
    by (simp add: py_or_def)
  show "parse_exiftool_datetime example_strptime latin1_strip (\<lambda>s. None) (\<lambda>t. 0) Map.empty = Inr None"
    using parse_exiftool_datetime_absent
      [of None Map.empty example_strptime latin1_strip "\<lambda>s. None" "\<lambda>t. 0"]
    by (simp add: py_or_def)
  show "parse_exiftool_datetime example_strptime latin1_strip (\<lambda>s. None) (\<lambda>t. 0)
        [''DateTimeOriginal'' \<mapsto> [], ''CreateDate'' \<mapsto> []] = Inr None"
    using parse_exiftool_datetime_absent [of "Some []"
        "[''DateTimeOriginal'' \<mapsto> [], ''CreateDate'' \<mapsto> []]"
        example_strptime latin1_strip "\<lambda>s. None" "\<lambda>t. 0"]
    by (simp add: py_or_def)
  show "parse_exiftool_datetime example_strptime latin1_strip (\<lambda>s. None) (\<lambda>t. 0)
        [''DateTimeOriginal'' \<mapsto> ''0000:00:00 00:00:00'', ''CreateDate'' \<mapsto> ''2024:05:01 12:00:00'']
       = Inr None"
    using parse_exiftool_datetime_absent [of "Some ''0000:00:00 00:00:00''"
        "[''DateTimeOriginal'' \<mapsto> ''0000:00:00 00:00:00'', ''CreateDate'' \<mapsto> ''2024:05:01 12:00:00'']"
        example_strptime latin1_strip "\<lambda>s. None" "\<lambda>t. 0"]
    by (simp add: py_or_def)
  show "map (example_strptime (latin1_strip '' yesterday.5  '')) formats = [None, None, None]"
    by (simp add: strip_example example_strptime_def formats_def)
  show "example_strptime (hd (split_on CHR ''.'' (latin1_strip '' yesterday.5  '')))
         ''%Y:%m:%d %H:%M:%S'' = None"
    by (simp add: strip_example example_strptime_def)
  show "parse_exiftool_datetime example_strptime latin1_strip (\<lambda>s. None) (\<lambda>t. 0)
        [''CreateDate'' \<mapsto> '' yesterday.5  ''] = Inr None"
    using parse_exiftool_datetime_absent [of "Some '' yesterday.5  ''"
        "[''CreateDate'' \<mapsto> '' yesterday.5  '']" example_strptime latin1_strip "\<lambda>s. None" "\<lambda>t. 0"]
    by (simp add: py_or_def strip_example example_strptime_def formats_def)
qed

text \<open>
  A valid text behind a no-break space (character 160) is stripped, matched by the first
  format and returned as an instant: the hypotheses of the theorem do not hold of it.
\<close>

lemma strip_nbsp: "latin1_strip (CHR 0xA0 # ''2024:05:01 12:00:00'') = ''2024:05:01 12:00:00''"
  by (simp add: latin1_strip_def is_space_def)

lemma parse_exiftool_datetime_nbsp:
  "parse_exiftool_datetime example_strptime latin1_strip (\<lambda>s. None) (\<lambda>t. 0)
     [''DateTimeOriginal'' \<mapsto> CHR 0xA0 # ''2024:05:01 12:00:00'']
   = Inr (Some 1714564800000000)"
  by (simp add: parse_exiftool_datetime_def py_or_def match_date_str_def formats_def strip_nbsp
        example_strptime_def photo_time_utc_def offset_tzinfo_def)

end
